theory Spec2Isabelle
  imports Main "HOL-Library.AList" "HOL-Library.Sublist"
begin

section \<open>Python values\<close>

text \<open>
  The values that travel through the client: call parameters supplied by the caller and
  decoded JSON bodies. A \<open>dict\<close> is an association list in insertion order whose keys
  are strings (keyword arguments and JSON object keys are strings). A \<open>str\<close> is a list
  of code points below 256. Floating-point numbers are not modelled.
\<close>

datatype pyval =
    PNone
  | PBool bool
  | PInt int
  | PStr string
  | PList "pyval list"
  | PTuple "pyval list"
  | PDict "(string \<times> pyval) list"

subsection \<open>\<open>str\<close> and \<open>repr\<close>, as \<open>format\<close> applies them\<close>

definition digit_char :: "nat \<Rightarrow> char" where
  "digit_char n = ''0123456789abcdef'' ! n"

fun str_nat :: "nat \<Rightarrow> string" where
  "str_nat n = (if n < 10 then [digit_char n] else str_nat (n div 10) @ [digit_char (n mod 10)])"

declare str_nat.simps [simp del]

definition str_int :: "int \<Rightarrow> string" where
  "str_int i = (if i < 0 then ''-'' @ str_nat (nat (- i)) else str_nat (nat i))"

definition printable :: "char \<Rightarrow> bool" where
  "printable c = (let n = (of_char c :: nat) in (32 \<le> n \<and> n < 127) \<or> (161 \<le> n \<and> n \<noteq> 173))"

definition repr_char :: "char \<Rightarrow> char \<Rightarrow> string" where
  "repr_char q c =
     (if c = q \<or> c = CHR 0x5C then [CHR 0x5C, c]
      else if c = CHR 0x09 then [CHR 0x5C, CHR ''t'']
      else if c = CHR 0x0A then [CHR 0x5C, CHR ''n'']
      else if c = CHR 0x0D then [CHR 0x5C, CHR ''r'']
      else if printable c then [c]
      else [CHR 0x5C, CHR ''x'', digit_char (of_char c div 16), digit_char (of_char c mod 16)])"

definition repr_str :: "string \<Rightarrow> string" where
  "repr_str s =
     (let q = (if CHR 0x27 \<in> set s \<and> CHR 0x22 \<notin> set s then CHR 0x22 else CHR 0x27)
      in [q] @ concat (map (repr_char q) s) @ [q])"

fun join :: "string \<Rightarrow> string list \<Rightarrow> string" where
  "join sep [] = []"
| "join sep [x] = x"
| "join sep (x # y # ys) = x @ sep @ join sep (y # ys)"

fun py_repr :: "pyval \<Rightarrow> string"
  and py_repr_list :: "pyval list \<Rightarrow> string list"
  and py_repr_items :: "(string \<times> pyval) list \<Rightarrow> string list" where
  "py_repr PNone = ''None''"
| "py_repr (PBool b) = (if b then ''True'' else ''False'')"
| "py_repr (PInt i) = str_int i"
| "py_repr (PStr s) = repr_str s"
| "py_repr (PList vs) = ''['' @ join '', '' (py_repr_list vs) @ '']''"
| "py_repr (PTuple vs) =
     (if length vs = 1 then ''('' @ join '', '' (py_repr_list vs) @ '',)''
      else ''('' @ join '', '' (py_repr_list vs) @ '')'')"
| "py_repr (PDict kvs) = ''{'' @ join '', '' (py_repr_items kvs) @ ''}''"
| "py_repr_list [] = []"
| "py_repr_list (v # vs) = py_repr v # py_repr_list vs"
| "py_repr_items [] = []"
| "py_repr_items ((k, v) # kvs) = (repr_str k @ '': '' @ py_repr v) # py_repr_items kvs"

definition py_str :: "pyval \<Rightarrow> string" where
  "py_str v = (case v of PStr s \<Rightarrow> s | _ \<Rightarrow> py_repr v)"

section \<open>The parameter encoder\<close>

text \<open>
  \<open>_prepare_params(params, prev)\<close>. The loop over \<open>params.items()\<close> is
  \<open>prepare_items\<close>; the loop over \<open>enumerate(value)\<close> is \<open>prepare_seq\<close>, which carries
  the offset. A prefix is tested for truth as the source does (\<open>if prev:\<close>), which for a
  string means it is not empty.
\<close>

definition emit_scalar :: "string \<Rightarrow> string \<Rightarrow> pyval \<Rightarrow> string" where
  "emit_scalar prev key val =
     (if prev \<noteq> [] then prev @ ''['' @ key @ '']='' @ py_str val @ ''&''
      else key @ ''='' @ py_str val @ ''&'')"

definition emit_element :: "string \<Rightarrow> string \<Rightarrow> nat \<Rightarrow> pyval \<Rightarrow> string" where
  "emit_element prev key offset val =
     (if prev \<noteq> [] then prev @ ''['' @ key @ '']['' @ str_nat offset @ '']='' @ py_str val @ ''&''
      else key @ ''['' @ str_nat offset @ '']='' @ py_str val @ ''&'')"

definition element_prefix :: "string \<Rightarrow> string \<Rightarrow> nat \<Rightarrow> string" where
  "element_prefix prev key offset = prev @ ''['' @ key @ '']['' @ str_nat offset @ '']''"

function prepare_params :: "pyval \<Rightarrow> string \<Rightarrow> string"
  and prepare_items :: "(string \<times> pyval) list \<Rightarrow> string \<Rightarrow> string"
  and prepare_seq :: "pyval list \<Rightarrow> string \<Rightarrow> string \<Rightarrow> nat \<Rightarrow> string" where
  "prepare_params params prev =
     (case params of PDict kvs \<Rightarrow> prepare_items kvs prev | _ \<Rightarrow> [])"
| "prepare_items [] prev = []"
| "prepare_items ((key, val) # rest) prev =
     (case val of
        PDict d \<Rightarrow> prepare_params val (if prev \<noteq> [] then prev @ ''['' @ key @ '']'' else key)
      | PList vs \<Rightarrow> if length vs > 0 then prepare_seq vs prev key 0 else emit_scalar prev key val
      | PTuple vs \<Rightarrow> if length vs > 0 then prepare_seq vs prev key 0 else emit_scalar prev key val
      | _ \<Rightarrow> emit_scalar prev key val)
     @ prepare_items rest prev"
| "prepare_seq [] prev key offset = []"
| "prepare_seq (v # vs) prev key offset =
     (case v of
        PDict d \<Rightarrow> prepare_params v (element_prefix prev key offset)
      | _ \<Rightarrow> emit_element prev key offset v)
     @ prepare_seq vs prev key (Suc offset)"
  by pat_completeness auto
termination
  by (relation "measure (\<lambda>x. case x of
        Inl (v, _) \<Rightarrow> 2 * size v
      | Inr (Inl (kvs, _)) \<Rightarrow> 2 * size_list (size_prod (\<lambda>_. 0) size) kvs + 1
      | Inr (Inr (vs, _)) \<Rightarrow> 2 * size_list size vs + 1)") auto

section \<open>Exceptions and the operators the client applies to values\<close>

datatype exn =
    Exception string
  | BitrixError pyval
  | UnboundLocalError string
  | ValueError
  | TypeError
  | KeyError pyval
  | IndexError
  | AttributeError
  | TransportError string

fun substring :: "string \<Rightarrow> string \<Rightarrow> bool" where
  "substring xs [] = (xs = [])"
| "substring xs (y # ys) = (prefix xs (y # ys) \<or> substring xs ys)"

text \<open>\<open>'k' in v\<close> for a string literal \<open>'k'\<close>.\<close>

definition str_in :: "string \<Rightarrow> pyval \<Rightarrow> exn + bool" where
  "str_in k v =
     (case v of
        PDict kvs \<Rightarrow> Inr (k \<in> set (map fst kvs))
      | PList vs \<Rightarrow> Inr (PStr k \<in> set vs)
      | PTuple vs \<Rightarrow> Inr (PStr k \<in> set vs)
      | PStr s \<Rightarrow> Inr (substring k s)
      | _ \<Rightarrow> Inl TypeError)"

text \<open>\<open>v in 'S'\<close> for a string literal \<open>'S'\<close>.\<close>

definition in_str :: "pyval \<Rightarrow> string \<Rightarrow> exn + bool" where
  "in_str v S = (case v of PStr s \<Rightarrow> Inr (substring s S) | _ \<Rightarrow> Inl TypeError)"

text \<open>\<open>v['k']\<close> for a string literal \<open>'k'\<close>.\<close>

definition getitem :: "pyval \<Rightarrow> string \<Rightarrow> exn + pyval" where
  "getitem v k =
     (case v of
        PDict kvs \<Rightarrow> (case map_of kvs k of None \<Rightarrow> Inl (KeyError (PStr k)) | Some x \<Rightarrow> Inr x)
      | _ \<Rightarrow> Inl TypeError)"

definition py_truthy :: "pyval \<Rightarrow> bool" where
  "py_truthy v =
     (case v of
        PNone \<Rightarrow> False
      | PBool b \<Rightarrow> b
      | PInt i \<Rightarrow> i \<noteq> 0
      | PStr s \<Rightarrow> s \<noteq> []
      | PList vs \<Rightarrow> vs \<noteq> []
      | PTuple vs \<Rightarrow> vs \<noteq> []
      | PDict kvs \<Rightarrow> kvs \<noteq> [])"

definition int_of_bool :: "bool \<Rightarrow> int" where
  "int_of_bool b = (if b then 1 else 0)"

text \<open>
  \<open>==\<close> on the modelled values: numbers by value (\<open>True == 1\<close>), sequences element by
  element, mappings by key.
\<close>

function py_eq :: "pyval \<Rightarrow> pyval \<Rightarrow> bool"
  and py_eq_list :: "pyval list \<Rightarrow> pyval list \<Rightarrow> bool"
  and py_eq_items :: "(string \<times> pyval) list \<Rightarrow> (string \<times> pyval) list \<Rightarrow> bool" where
  "py_eq a b =
     (case a of
        PNone \<Rightarrow> (case b of PNone \<Rightarrow> True | _ \<Rightarrow> False)
      | PBool x \<Rightarrow> (case b of PBool y \<Rightarrow> x = y | PInt j \<Rightarrow> int_of_bool x = j | _ \<Rightarrow> False)
      | PInt i \<Rightarrow> (case b of PBool y \<Rightarrow> i = int_of_bool y | PInt j \<Rightarrow> i = j | _ \<Rightarrow> False)
      | PStr s \<Rightarrow> (case b of PStr t \<Rightarrow> s = t | _ \<Rightarrow> False)
      | PList xs \<Rightarrow> (case b of PList ys \<Rightarrow> py_eq_list xs ys | _ \<Rightarrow> False)
      | PTuple xs \<Rightarrow> (case b of PTuple ys \<Rightarrow> py_eq_list xs ys | _ \<Rightarrow> False)
      | PDict xs \<Rightarrow> (case b of PDict ys \<Rightarrow> length xs = length ys \<and> py_eq_items xs ys | _ \<Rightarrow> False))"
| "py_eq_list [] ys = (ys = [])"
| "py_eq_list (x # xs) ys = (case ys of [] \<Rightarrow> False | y # ys' \<Rightarrow> py_eq x y \<and> py_eq_list xs ys')"
| "py_eq_items [] ys = True"
| "py_eq_items ((k, x) # xs) ys =
     (case map_of ys k of None \<Rightarrow> False | Some y \<Rightarrow> py_eq x y \<and> py_eq_items xs ys)"
  by pat_completeness auto
termination
  by (relation "measure (\<lambda>x. case x of
        Inl (v, _) \<Rightarrow> 2 * size v
      | Inr (Inl (vs, _)) \<Rightarrow> 2 * size_list size vs + 1
      | Inr (Inr (kvs, _)) \<Rightarrow> 2 * size_list (size_prod (\<lambda>_. 0) size) kvs + 1)") auto

fun str_gt :: "string \<Rightarrow> string \<Rightarrow> bool" where
  "str_gt [] t = False"
| "str_gt (a # s) [] = True"
| "str_gt (a # s) (b # t) = (if a = b then str_gt s t else (of_char b :: nat) < of_char a)"

text \<open>
  \<open>a > b\<close>. Sequences compare at the first pair of elements that are not equal, else by
  length; operands that do not order raise \<open>TypeError\<close>.
\<close>

function py_gt :: "pyval \<Rightarrow> pyval \<Rightarrow> exn + bool"
  and py_gt_list :: "pyval list \<Rightarrow> pyval list \<Rightarrow> exn + bool" where
  "py_gt a b =
     (case a of
        PBool x \<Rightarrow> (case b of PBool y \<Rightarrow> Inr (int_of_bool y < int_of_bool x)
                     | PInt j \<Rightarrow> Inr (j < int_of_bool x) | _ \<Rightarrow> Inl TypeError)
      | PInt i \<Rightarrow> (case b of PBool y \<Rightarrow> Inr (int_of_bool y < i)
                    | PInt j \<Rightarrow> Inr (j < i) | _ \<Rightarrow> Inl TypeError)
      | PStr s \<Rightarrow> (case b of PStr t \<Rightarrow> Inr (str_gt s t) | _ \<Rightarrow> Inl TypeError)
      | PList xs \<Rightarrow> (case b of PList ys \<Rightarrow> py_gt_list xs ys | _ \<Rightarrow> Inl TypeError)
      | PTuple xs \<Rightarrow> (case b of PTuple ys \<Rightarrow> py_gt_list xs ys | _ \<Rightarrow> Inl TypeError)
      | _ \<Rightarrow> Inl TypeError)"
| "py_gt_list [] ys = Inr False"
| "py_gt_list (x # xs) ys =
     (case ys of [] \<Rightarrow> Inr True
      | y # ys' \<Rightarrow> if py_eq x y then py_gt_list xs ys' else py_gt x y)"
  by pat_completeness auto
termination
  by (relation "measure (\<lambda>x. case x of
        Inl (v, _) \<Rightarrow> 2 * size v
      | Inr (vs, _) \<Rightarrow> 2 * size_list size vs + 1)") auto

text \<open>\<open>v += n\<close> for an integer literal \<open>n\<close>.\<close>

definition add_int :: "pyval \<Rightarrow> int \<Rightarrow> exn + pyval" where
  "add_int v n =
     (case v of
        PInt i \<Rightarrow> Inr (PInt (i + n))
      | PBool b \<Rightarrow> Inr (PInt (int_of_bool b + n))
      | _ \<Rightarrow> Inl TypeError)"

text \<open>The elements \<open>list.extend(v)\<close> appends.\<close>

definition py_iter :: "pyval \<Rightarrow> exn + pyval list" where
  "py_iter v =
     (case v of
        PList vs \<Rightarrow> Inr vs
      | PTuple vs \<Rightarrow> Inr vs
      | PStr s \<Rightarrow> Inr (map (\<lambda>c. PStr [c]) s)
      | PDict kvs \<Rightarrow> Inr (map (\<lambda>kv. PStr (fst kv)) kvs)
      | _ \<Rightarrow> Inl TypeError)"

text \<open>\<open>v[-1]\<close>, applied in the source to a value that has passed \<open>if v:\<close>.\<close>

definition last_item :: "pyval \<Rightarrow> exn + pyval" where
  "last_item v =
     (case v of
        PList vs \<Rightarrow> (if vs = [] then Inl IndexError else Inr (last vs))
      | PTuple vs \<Rightarrow> (if vs = [] then Inl IndexError else Inr (last vs))
      | PStr s \<Rightarrow> (if s = [] then Inl IndexError else Inr (PStr [last s]))
      | PDict kvs \<Rightarrow> Inl (KeyError (PInt (- 1)))
      | _ \<Rightarrow> Inl TypeError)"

text \<open>\<open>d.update(e)\<close>: the entries of \<open>e\<close> are stored in order, a key that exists keeps its place.\<close>

definition dict_update :: "(string \<times> pyval) list \<Rightarrow> (string \<times> pyval) list \<Rightarrow> (string \<times> pyval) list" where
  "dict_update d e = fold (\<lambda>kv acc. AList.update (fst kv) (snd kv) acc) e d"

text \<open>\<open>s.split(c)\<close> and \<open>s.rsplit(c, 1)\<close> for a one-character separator.\<close>

fun split_on :: "char \<Rightarrow> string \<Rightarrow> string list" where
  "split_on c [] = [[]]"
| "split_on c (x # xs) =
     (if x = c then [] # split_on c xs
      else (case split_on c xs of [] \<Rightarrow> [[x]] | w # ws \<Rightarrow> (x # w) # ws))"

definition rsplit1 :: "char \<Rightarrow> string \<Rightarrow> string list" where
  "rsplit1 c s =
     (if c \<in> set s
      then [rev (tl (dropWhile (\<lambda>x. x \<noteq> c) (rev s))), rev (takeWhile (\<lambda>x. x \<noteq> c) (rev s))]
      else [s])"


section \<open>The client\<close>

subsection \<open>Construction and the domain normalizer\<close>

text \<open>
  \<open>urlparse\<close> belongs to the standard library, not to this repository: the client takes
  it as a parameter. It returns the components the client reads, or \<open>None\<close> where the
  library raises \<open>ValueError\<close>.
\<close>

record ParseResult =
  scheme :: string
  netloc :: string
  path :: string

record bitrix24 =
  domain :: string
  timeout :: pyval

definition is_str :: "pyval \<Rightarrow> bool" where
  "is_str v = (case v of PStr s \<Rightarrow> True | _ \<Rightarrow> False)"

definition prepare_domain :: "(string \<Rightarrow> ParseResult option) \<Rightarrow> pyval \<Rightarrow> exn + string" where
  "prepare_domain urlparse d =
     (if d = PStr [] \<or> \<not> is_str d then Inl (Exception ''Empty domain'')
      else case d of
        PStr s \<Rightarrow>
          (case urlparse s of
             None \<Rightarrow> Inl ValueError
           | Some o' \<Rightarrow>
               (case take 2 (drop 2 (split_on CHR ''/'' (path o'))) of
                  [user_id, code] \<Rightarrow>
                    Inr (scheme o' @ ''://'' @ netloc o' @ ''/rest/'' @ user_id @ ''/'' @ code)
                | _ \<Rightarrow> Inl ValueError))
      | _ \<Rightarrow> Inl (Exception ''Empty domain''))"

definition init :: "(string \<Rightarrow> ParseResult option) \<Rightarrow> pyval \<Rightarrow> pyval \<Rightarrow> exn + bitrix24" where
  "init urlparse d t =
     (case prepare_domain urlparse d of
        Inl e \<Rightarrow> Inl e
      | Inr endpoint \<Rightarrow> Inr \<lparr>domain = endpoint, timeout = t\<rparr>)"

subsection \<open>The transport\<close>

text \<open>
  One request is \<open>requests.get(url, params=p, timeout=t).json()\<close> or
  \<open>requests.post(url, data=p, timeout=t).json()\<close>. The remote service is a function from the
  request and its own state to a reply: the decoded body, a \<open>ValueError\<close> (the body is not
  JSON, or \<open>requests\<close> rejects the URL), or any other exception of the transport. What the
  client does to the outside is recorded in a trace: the requests it sends and the seconds
  it sleeps.
\<close>

datatype verb = GET | POST

record request =
  verb :: verb
  url :: string
  payload :: string
  req_timeout :: pyval

datatype reply = Decoded pyval | RaisedValueError | Failed string

datatype event = Sent request | Slept nat

type_synonym 'w transport = "request \<Rightarrow> 'w \<Rightarrow> reply \<times> 'w"

type_synonym 'w world = "'w \<times> event list"

text \<open>A service that answers the requests it receives with a fixed list of replies, in order.\<close>

fun scripted :: "reply list transport" where
  "scripted req [] = (Failed ''no reply left'', [])"
| "scripted req (r # rs) = (r, rs)"

subsection \<open>\<open>_call_method\<close>\<close>

text \<open>
  The body of the \<open>try\<close> ends with the assignment to \<open>r\<close>, so the handler of
  \<open>ValueError\<close> runs with the local \<open>r\<close> as the \<open>try\<close> left it; \<open>except_ValueError\<close>
  takes it as an option, \<open>None\<close> for a name that is not bound. The retry is a recursive
  call without a bound: the model counts calls down from \<open>fuel\<close> and returns \<open>None\<close>
  when none is left.
\<close>

definition post_words :: "string list" where
  "post_words = [''add'', ''update'', ''delete'', ''set'']"

definition build_request :: "bitrix24 \<Rightarrow> string \<Rightarrow> (string \<times> pyval) list \<Rightarrow> request" where
  "build_request self method params =
     \<lparr>verb = (if hd (rsplit1 CHR ''.'' method) \<in> set post_words then POST else GET),
      url = domain self @ ''/'' @ method @ ''.json'',
      payload = prepare_params (PDict params) [],
      req_timeout = timeout self\<rparr>"

function (sequential) call_method ::
    "nat \<Rightarrow> 'w transport \<Rightarrow> bitrix24 \<Rightarrow> string \<Rightarrow> (string \<times> pyval) list \<Rightarrow> 'w world
       \<Rightarrow> ((exn + pyval) \<times> 'w world) option"
  and except_ValueError ::
    "nat \<Rightarrow> 'w transport \<Rightarrow> bitrix24 \<Rightarrow> string \<Rightarrow> (string \<times> pyval) list \<Rightarrow> pyval option
       \<Rightarrow> 'w world \<Rightarrow> ((exn + pyval) \<times> 'w world) option" where
  "call_method 0 tr self method params st = None"
| "call_method (Suc fuel) tr self method params st =
     (let req = build_request self method params;
          (reply, w') = tr req (fst st);
          st' = (w', snd st @ [Sent req])
      in case reply of
           Failed msg \<Rightarrow> Some (Inl (TransportError msg), st')
         | RaisedValueError \<Rightarrow> except_ValueError fuel tr self method params None st'
         | Decoded r \<Rightarrow>
             (case str_in ''error'' r of
                Inl e \<Rightarrow> Some (Inl e, st')
              | Inr True \<Rightarrow> Some (Inl (BitrixError r), st')
              | Inr False \<Rightarrow> Some (Inr r, st')))"
| "except_ValueError fuel tr self method params r_local st =
     (case r_local of
        None \<Rightarrow> Some (Inl (UnboundLocalError ''r''), st)
      | Some r \<Rightarrow>
          (case getitem r ''error'' of
             Inl e \<Rightarrow> Some (Inl e, st)
           | Inr err \<Rightarrow>
               (case in_str err ''QUERY_LIMIT_EXCEEDED'' of
                  Inl e \<Rightarrow> Some (Inl e, st)
                | Inr found \<Rightarrow>
                    if \<not> found then Some (Inl (BitrixError r), st)
                    else call_method fuel tr self method params (fst st, snd st @ [Slept 2]))))"
  by pat_completeness auto
termination
  by (relation "measure (\<lambda>x. case x of
        Inl (fuel, _) \<Rightarrow> 2 * fuel
      | Inr (fuel, _) \<Rightarrow> 2 * fuel + 1)") auto

subsection \<open>\<open>callMethodIter\<close>\<close>

text \<open>
  The generator, drained: the values it yields, in order, and the exception that ended it
  (\<open>None\<close> when it returned). The recursion has no bound in the source; \<open>fuel\<close> bounds
  its depth in the model.
\<close>

definition has_next :: "pyval \<Rightarrow> (string \<times> pyval) list \<Rightarrow> exn + bool" where
  "has_next r params =
     (case str_in ''next'' r of
        Inl e \<Rightarrow> Inl e
      | Inr False \<Rightarrow> Inr False
      | Inr True \<Rightarrow>
          (case getitem r ''total'' of
             Inl e \<Rightarrow> Inl e
           | Inr tot \<Rightarrow>
               (case map_of params ''start'' of
                  None \<Rightarrow> Inl (KeyError (PStr ''start''))
                | Some start \<Rightarrow> py_gt tot start)))"

definition yield_result ::
    "pyval \<Rightarrow> pyval list \<Rightarrow> 'w world \<Rightarrow> ((pyval list \<times> exn option) \<times> 'w world) option" where
  "yield_result r ys st =
     (case getitem r ''result'' of
        Inl e \<Rightarrow> Some ((ys, Some e), st)
      | Inr v \<Rightarrow> Some ((ys @ [v], None), st))"

function (sequential) callMethodIter ::
    "nat \<Rightarrow> 'w transport \<Rightarrow> bitrix24 \<Rightarrow> string \<Rightarrow> (string \<times> pyval) list \<Rightarrow> 'w world
       \<Rightarrow> ((pyval list \<times> exn option) \<times> 'w world) option" where
  "callMethodIter 0 tr self method params0 st = None"
| "callMethodIter (Suc fuel) tr self method params0 st =
     (let params = (if ''start'' \<notin> set (map fst params0)
                    then AList.update ''start'' (PInt 0) params0 else params0)
      in case call_method (Suc fuel) tr self method params st of
           None \<Rightarrow> None
         | Some (Inl e, st1) \<Rightarrow> Some (([], Some e), st1)
         | Some (Inr r, st1) \<Rightarrow>
             (case has_next r params of
                Inl e \<Rightarrow> Some (([], Some e), st1)
              | Inr False \<Rightarrow> yield_result r [] st1
              | Inr True \<Rightarrow>
                  (case map_of params ''start'' of
                     None \<Rightarrow> Some (([], Some (KeyError (PStr ''start''))), st1)
                   | Some start \<Rightarrow>
                       (case add_int start 50 of
                          Inl e \<Rightarrow> Some (([], Some e), st1)
                        | Inr start' \<Rightarrow>
                            (case callMethodIter fuel tr self method
                                    (AList.update ''start'' start' params) st1 of
                               None \<Rightarrow> None
                             | Some ((ys, Some e), st2) \<Rightarrow> Some ((ys, Some e), st2)
                             | Some ((ys, None), st2) \<Rightarrow> yield_result r ys st2)))))"
  by pat_completeness auto
termination
  by (relation "measure (\<lambda>(fuel, _). fuel)") auto

subsection \<open>\<open>callMethod\<close>\<close>

fun merge_pages ::
    "pyval list \<Rightarrow> (string \<times> pyval) list \<Rightarrow> pyval list \<Rightarrow> (string \<times> pyval) list \<times> pyval list" where
  "merge_pages [] result_dict result_list = (result_dict, result_list)"
| "merge_pages (r # rs) result_dict result_list =
     (case r of
        PDict d \<Rightarrow> merge_pages rs (dict_update result_dict d) result_list
      | PList l \<Rightarrow> merge_pages rs result_dict (result_list @ l)
      | _ \<Rightarrow> merge_pages rs result_dict result_list)"

definition callMethod ::
    "nat \<Rightarrow> 'w transport \<Rightarrow> bitrix24 \<Rightarrow> string \<Rightarrow> (string \<times> pyval) list \<Rightarrow> 'w world
       \<Rightarrow> ((exn + pyval) \<times> 'w world) option" where
  "callMethod fuel tr self method params st =
     (case callMethodIter fuel tr self method params st of
        None \<Rightarrow> None
      | Some ((ys, Some e), st') \<Rightarrow> Some (Inl e, st')
      | Some ((ys, None), st') \<Rightarrow>
          (case merge_pages ys [] [] of
             (result_dict, result_list) \<Rightarrow>
               if result_dict \<noteq> [] then Some (Inr (PDict result_dict), st')
               else if result_list \<noteq> [] then Some (Inr (PList result_list), st')
               else if ys = [] then Some (Inl (UnboundLocalError ''r''), st')
               else Some (Inr (last ys), st')))"

subsection \<open>\<open>callMethodList\<close>\<close>

text \<open>
  \<open>key\<close> is \<open>None\<close> or a string. The \<open>while True\<close> loop is \<open>fetch_loop\<close>; \<open>fuel\<close>
  bounds the number of its rounds in the model.
\<close>

definition dict_get :: "(string \<times> pyval) list \<Rightarrow> string option \<Rightarrow> pyval \<Rightarrow> pyval" where
  "dict_get d key dflt =
     (case key of
        None \<Rightarrow> dflt
      | Some k \<Rightarrow> (case map_of d k of None \<Rightarrow> dflt | Some v \<Rightarrow> v))"

function (sequential) fetch_loop ::
    "nat \<Rightarrow> 'w transport \<Rightarrow> bitrix24 \<Rightarrow> string \<Rightarrow> string option \<Rightarrow> (string \<times> pyval) list \<Rightarrow> pyval
       \<Rightarrow> pyval list \<Rightarrow> 'w world \<Rightarrow> ((exn + pyval list) \<times> 'w world) option" where
  "fetch_loop 0 tr self method key params ident result st = None"
| "fetch_loop (Suc fuel) tr self method key params ident result st =
     (case map_of params ''filter'' of
        None \<Rightarrow> Some (Inl (KeyError (PStr ''filter'')), st)
      | Some (PDict f) \<Rightarrow>
          (let params' = AList.update ''filter'' (PDict (AList.update ''>ID'' ident f)) params
           in case call_method (Suc fuel) tr self method params' st of
                None \<Rightarrow> None
              | Some (Inl e, st1) \<Rightarrow> Some (Inl e, st1)
              | Some (Inr env, st1) \<Rightarrow>
                  (case getitem env ''result'' of
                     Inl e \<Rightarrow> Some (Inl e, st1)
                   | Inr r0 \<Rightarrow>
                       (let r = (case r0 of PDict d \<Rightarrow> dict_get d key (PList []) | _ \<Rightarrow> r0)
                        in if py_truthy r then
                             (case py_iter r of
                                Inl e \<Rightarrow> Some (Inl e, st1)
                              | Inr rows \<Rightarrow>
                                  (case last_item r of
                                     Inl e \<Rightarrow> Some (Inl e, st1)
                                   | Inr row \<Rightarrow>
                                       (case getitem row ''id'' of
                                          Inl e \<Rightarrow> Some (Inl e, st1)
                                        | Inr ident' \<Rightarrow>
                                            fetch_loop fuel tr self method key params' ident'
                                              (result @ rows) st1)))
                           else Some (Inr result, st1))))
      | Some _ \<Rightarrow> Some (Inl AttributeError, st))"
  by pat_completeness auto
termination
  by (relation "measure (\<lambda>(fuel, _). fuel)") auto

definition callMethodList ::
    "nat \<Rightarrow> 'w transport \<Rightarrow> bitrix24 \<Rightarrow> string \<Rightarrow> pyval \<Rightarrow> string option \<Rightarrow> (string \<times> pyval) list
       \<Rightarrow> 'w world \<Rightarrow> ((exn + pyval list) \<times> 'w world) option" where
  "callMethodList fuel tr self method ident key params0 st =
     (let params1 = AList.update ''start'' (PInt (- 1)) params0;
          params2 = AList.update ''order'' (PDict [(''ID'', PStr ''asc'')]) params1;
          params3 = (if ''filter'' \<notin> set (map fst params2)
                     then AList.update ''filter'' (PDict []) params2 else params2)
      in fetch_loop fuel tr self method key params3 ident [] st)"

section \<open>Replies of the service, as the properties describe them\<close>

text \<open>
  A decoded envelope \<open>e\<close> without an \<open>error\<close> field whose \<open>result\<close> is \<open>v\<close>, read at
  the offset \<open>start\<close>: it \<^emph>\<open>continues\<close> when it has a \<open>next\<close> field and its \<open>total\<close> is
  greater than \<open>start\<close>, and it \<^emph>\<open>ends\<close> when it has no \<open>next\<close> field or its \<open>total\<close> is
  at most \<open>start\<close>.
\<close>

definition page_continues :: "(string \<times> pyval) list \<Rightarrow> pyval \<Rightarrow> int \<Rightarrow> bool" where
  "page_continues e v start =
     (''error'' \<notin> set (map fst e) \<and> map_of e ''result'' = Some v \<and>
      ''next'' \<in> set (map fst e) \<and> (\<exists>t. map_of e ''total'' = Some (PInt t) \<and> start < t))"

definition page_ends :: "(string \<times> pyval) list \<Rightarrow> pyval \<Rightarrow> int \<Rightarrow> bool" where
  "page_ends e v start =
     (''error'' \<notin> set (map fst e) \<and> map_of e ''result'' = Some v \<and>
      (''next'' \<notin> set (map fst e) \<or> (\<exists>t. map_of e ''total'' = Some (PInt t) \<and> t \<le> start)))"

text \<open>
  What the aggregate call returns, in the words of its description: the merge of the pages
  that are mappings, a later page overwriting the keys of the pages before it, and the
  concatenation of the pages that are sequences.
\<close>

definition spec_merge :: "pyval list \<Rightarrow> (string \<rightharpoonup> pyval)" where
  "spec_merge ys = foldl (\<lambda>m y. case y of PDict d \<Rightarrow> m ++ map_of d | _ \<Rightarrow> m) Map.empty ys"

definition spec_concat :: "pyval list \<Rightarrow> pyval list" where
  "spec_concat ys = concat (map (\<lambda>y. case y of PList l \<Rightarrow> l | _ \<Rightarrow> []) ys)"

text \<open>
  A decoded envelope \<open>e\<close> without an \<open>error\<close> field whose \<open>result\<close> is the non-empty
  list \<open>rows\<close>, the last of them a mapping with the \<open>id\<close> field \<open>i\<close>.
\<close>

definition page_of_rows :: "(string \<times> pyval) list \<Rightarrow> pyval list \<Rightarrow> pyval \<Rightarrow> bool" where
  "page_of_rows e rows i =
     (''error'' \<notin> set (map fst e) \<and> map_of e ''result'' = Some (PList rows) \<and> rows \<noteq> [] \<and>
      (\<exists>row. last rows = PDict row \<and> map_of row ''id'' = Some i))"

section \<open>Properties of the parameter encoder\<close>

lemma prepare_items_append:
  "prepare_items (xs @ ys) prev = prepare_items xs prev @ prepare_items ys prev"
  by (induction xs) auto

lemma prepare_seq_append:
  "prepare_seq (xs @ ys) prev key n =
     prepare_seq xs prev key n @ prepare_seq ys prev key (n + length xs)"
  by (induction xs arbitrary: n) auto

lemma str_nat_0: "str_nat 0 = ''0''"
  by (simp add: str_nat.simps digit_char_def)

lemma py_str_empty_seq: "py_str (PList []) = ''[]''" "py_str (PTuple []) = ''()''"
  by (simp_all add: py_str_def)

lemma empty_or_prefix_append:
  "a = [] \<or> prefix p a \<Longrightarrow> b = [] \<or> prefix p b \<Longrightarrow> a @ b = [] \<or> prefix p (a @ b)"
  by auto

lemma emit_scalar_prefix: "prev \<noteq> [] \<Longrightarrow> prefix prev (emit_scalar prev key v)"
  by (simp add: emit_scalar_def)

lemma emit_element_prefix: "prev \<noteq> [] \<Longrightarrow> prefix prev (emit_element prev key n v)"
  by (simp add: emit_element_def)

text \<open>Under a prefix that is not empty, whatever the encoder emits begins with the prefix.\<close>

lemma starts_with_prefix:
  "prev \<noteq> [] \<Longrightarrow> prepare_params v prev = [] \<or> prefix prev (prepare_params v prev)"
  "prev \<noteq> [] \<Longrightarrow> prepare_items kvs prev = [] \<or> prefix prev (prepare_items kvs prev)"
  "prev \<noteq> [] \<Longrightarrow> prepare_seq vs prev key n = [] \<or> prefix prev (prepare_seq vs prev key n)"
proof (induction v prev and kvs prev and vs prev key n
    rule: prepare_params_prepare_items_prepare_seq.induct)
  case (1 params prev)
  then show ?case by (cases params) auto
next
  case (2 prev)
  show ?case by simp
next
  case (3 key val rest prev)
  let ?first = "case val of
        PDict d \<Rightarrow> prepare_params val (if prev \<noteq> [] then prev @ ''['' @ key @ '']'' else key)
      | PList vs \<Rightarrow> if length vs > 0 then prepare_seq vs prev key 0 else emit_scalar prev key val
      | PTuple vs \<Rightarrow> if length vs > 0 then prepare_seq vs prev key 0 else emit_scalar prev key val
      | _ \<Rightarrow> emit_scalar prev key val"
  have others: "prepare_items rest prev = [] \<or> prefix prev (prepare_items rest prev)"
    using 3 by blast
  have first: "?first = [] \<or> prefix prev ?first"
  proof (cases val)
    case (PDict d)
    have "prepare_params val (prev @ ''['' @ key @ '']'') = [] \<or>
          prefix (prev @ ''['' @ key @ '']'') (prepare_params val (prev @ ''['' @ key @ '']''))"
      using 3 PDict by simp
    then show ?thesis using PDict 3 by (auto dest: append_prefixD)
  next
    case (PList vs)
    then show ?thesis using 3 by (auto simp: emit_scalar_prefix)
  next
    case (PTuple vs)
    then show ?thesis using 3 by (auto simp: emit_scalar_prefix)
  qed (use 3 in \<open>simp_all add: emit_scalar_prefix\<close>)
  show ?case
    unfolding prepare_items.simps by (rule empty_or_prefix_append [OF first others])
next
  case (4 prev key offset)
  show ?case by simp
next
  case (5 v vs prev key offset)
  let ?first = "case v of PDict d \<Rightarrow> prepare_params v (element_prefix prev key offset)
      | _ \<Rightarrow> emit_element prev key offset v"
  have others: "prepare_seq vs prev key (Suc offset) = [] \<or>
      prefix prev (prepare_seq vs prev key (Suc offset))"
    using 5 by blast
  have first: "?first = [] \<or> prefix prev ?first"
  proof (cases v)
    case (PDict d)
    have "element_prefix prev key offset \<noteq> []" by (simp add: element_prefix_def)
    with 5 PDict show ?thesis
      by (auto simp: element_prefix_def dest: append_prefixD)
  qed (use 5 in \<open>simp_all add: emit_element_prefix\<close>)
  show ?case
    unfolding prepare_seq.simps by (rule empty_or_prefix_append [OF first others])
qed

text \<open>
  Claim C1, as stated: a top-level key whose value is an empty sequence emits nothing, so
  that encoding \<open>{a: []}\<close> yields the empty string. The source sends a list or tuple to
  the loop over its elements only under the guard \<open>len(value) > 0\<close>; an empty one takes
  the last branch, the one of scalars, and is formatted like a scalar: \<open>{a: []}\<close> encodes
  to \<open>a=[]&\<close>.
\<close>

theorem empty_sequence_counterexample:
  "prepare_params (PDict [(''a'', PList [])]) [] = ''a=[]&'' \<and>
   prepare_params (PDict [(''a'', PList [])]) [] \<noteq> []"
  by (simp add: emit_scalar_def py_str_empty_seq)

text \<open>
  Claim C1, amended: for every top-level key whose value is an empty sequence, the encoder
  emits the pair \<open>key=[]&\<close> (an empty list) or \<open>key=()&\<close> (an empty tuple) at the place
  of the key, between what the keys before it and after it emit.
\<close>

theorem empty_sequence_emitted_as_scalar:
  "prepare_params (PDict (before @ (key, PList []) # rest)) [] =
     prepare_items before [] @ (key @ ''=[]&'') @ prepare_items rest [] \<and>
   prepare_params (PDict (before @ (key, PTuple []) # rest)) [] =
     prepare_items before [] @ (key @ ''=()&'') @ prepare_items rest []"
  by (simp add: prepare_items_append emit_scalar_def py_str_empty_seq)

text \<open>
  Claim C10: for a top-level key whose value is a non-empty sequence with a mapping among
  its elements, the mapping is encoded under the prefix \<open>parent[key][index]\<close> with the
  empty top-level parent, that is \<open>[key][index]\<close>: whatever the mapping emits begins
  with a bare bracket, and \<open>{a: [{b: 1}]}\<close> encodes to \<open>[a][0][b]=1&\<close>.
\<close>

theorem mapping_in_sequence_bare_bracket:
  "prepare_params (PDict (before @ (key, PList (xs @ PDict d # ys)) # rest)) [] =
     prepare_items before [] @
     (prepare_seq xs [] key 0 @
      prepare_items d (''['' @ key @ '']['' @ str_nat (length xs) @ '']'') @
      prepare_seq ys [] key (Suc (length xs))) @
     prepare_items rest [] \<and>
   prepare_params (PDict (before @ (key, PTuple (xs @ PDict d # ys)) # rest)) [] =
     prepare_items before [] @
     (prepare_seq xs [] key 0 @
      prepare_items d (''['' @ key @ '']['' @ str_nat (length xs) @ '']'') @
      prepare_seq ys [] key (Suc (length xs))) @
     prepare_items rest [] \<and>
   (prepare_items d (''['' @ key @ '']['' @ str_nat (length xs) @ '']'') = [] \<or>
    prefix (''['' @ key @ '']['' @ str_nat (length xs) @ '']'')
      (prepare_items d (''['' @ key @ '']['' @ str_nat (length xs) @ '']''))) \<and>
   prepare_params (PDict [(''a'', PList [PDict [(''b'', PInt 1)]])]) [] = ''[a][0][b]=1&''"
proof (intro conjI)
  show "prepare_params (PDict (before @ (key, PList (xs @ PDict d # ys)) # rest)) [] =
     prepare_items before [] @
     (prepare_seq xs [] key 0 @
      prepare_items d (''['' @ key @ '']['' @ str_nat (length xs) @ '']'') @
      prepare_seq ys [] key (Suc (length xs))) @
     prepare_items rest []"
    by (simp add: prepare_items_append prepare_seq_append element_prefix_def)
  show "prepare_params (PDict (before @ (key, PTuple (xs @ PDict d # ys)) # rest)) [] =
     prepare_items before [] @
     (prepare_seq xs [] key 0 @
      prepare_items d (''['' @ key @ '']['' @ str_nat (length xs) @ '']'') @
      prepare_seq ys [] key (Suc (length xs))) @
     prepare_items rest []"
    by (simp add: prepare_items_append prepare_seq_append element_prefix_def)
  show "prepare_items d (''['' @ key @ '']['' @ str_nat (length xs) @ '']'') = [] \<or>
    prefix (''['' @ key @ '']['' @ str_nat (length xs) @ '']'')
      (prepare_items d (''['' @ key @ '']['' @ str_nat (length xs) @ '']''))"
    by (rule starts_with_prefix(2)) simp
  show "prepare_params (PDict [(''a'', PList [PDict [(''b'', PInt 1)]])]) [] = ''[a][0][b]=1&''"
    by (simp add: emit_scalar_def py_str_def element_prefix_def str_nat_0 str_nat.simps
        digit_char_def str_int_def)
qed


section \<open>Properties of the domain normalizer\<close>

lemma split_on_not_empty: "split_on c s \<noteq> []"
  by (induction s) (auto split: list.splits)

lemma split_on_no_sep: "c \<notin> set a \<Longrightarrow> split_on c a = [a]"
  by (induction a) auto

lemma split_on_sep: "c \<notin> set a \<Longrightarrow> split_on c (a @ c # b) = a # split_on c b"
  by (induction a) auto

lemma two_items: "length xs = 2 \<Longrightarrow> \<exists>a b. xs = [a, b]"
  by (auto simp: length_Suc_conv numeral_2_eq_2)

lemma path_segments:
  assumes "CHR ''/'' \<notin> set seg0" "CHR ''/'' \<notin> set uid" "CHR ''/'' \<notin> set code"
    and "rest = [] \<or> (\<exists>m. rest = ''/'' @ m)"
  shows "take 2 (drop 2 (split_on CHR ''/'' (''/'' @ seg0 @ ''/'' @ uid @ ''/'' @ code @ rest))) =
     [uid, code]"
proof -
  have last: "\<exists>segs. split_on CHR ''/'' (code @ rest) = code # segs"
    using assms(3,4) by (auto simp: split_on_no_sep split_on_sep)
  have "split_on CHR ''/'' (''/'' @ seg0 @ ''/'' @ uid @ ''/'' @ code @ rest) =
      [] # seg0 # uid # split_on CHR ''/'' (code @ rest)"
    using assms(1,2) split_on_sep [of "CHR ''/''" seg0 "uid @ ''/'' @ code @ rest"]
      split_on_sep [of "CHR ''/''" uid "code @ rest"] by simp
  with last show ?thesis by auto
qed

text \<open>
  Claim C4, as stated: from \<open>scheme://host/seg0/seg1/<uid>/<code>/...\<close> the normalizer
  produces \<open>scheme://host/rest/<uid>/<code>\<close>. The source takes items 2 and 3 of
  \<open>path.split('/')\<close>, whose item 0 is the empty string before the leading slash: with
  two segments before the user id it takes \<open>seg1\<close> and the user id. For the URL below
  \<open>urlparse\<close> returns the scheme \<open>https\<close>, the host \<open>example.bitrix24.com\<close> and the
  path \<open>/x/rest/1/33olqeits4avuyqu\<close>.
\<close>

theorem two_leading_segments_counterexample:
  "prepare_domain
     [''https://example.bitrix24.com/x/rest/1/33olqeits4avuyqu'' \<mapsto>
        \<lparr>scheme = ''https'', netloc = ''example.bitrix24.com'',
         path = ''/x/rest/1/33olqeits4avuyqu''\<rparr>]
     (PStr ''https://example.bitrix24.com/x/rest/1/33olqeits4avuyqu'') =
   Inr ''https://example.bitrix24.com/rest/rest/1'' \<and>
   prepare_domain
     [''https://example.bitrix24.com/x/rest/1/33olqeits4avuyqu'' \<mapsto>
        \<lparr>scheme = ''https'', netloc = ''example.bitrix24.com'',
         path = ''/x/rest/1/33olqeits4avuyqu''\<rparr>]
     (PStr ''https://example.bitrix24.com/x/rest/1/33olqeits4avuyqu'') \<noteq>
   Inr ''https://example.bitrix24.com/rest/1/33olqeits4avuyqu''"
  by (simp add: prepare_domain_def is_str_def)

text \<open>
  Claim C4, amended: for any input URL whose path has the form
  \<open>/seg0/<uid>/<code>/...\<close> (one segment before the user id), the normalizer produces
  \<open>scheme://host/rest/<uid>/<code>\<close>: the user id and the secret code are items 2 and 3
  (0-indexed) of the path split at its slashes, item 0 being the empty string before the
  leading slash, whatever \<open>seg0\<close> is.
\<close>

theorem endpoint_from_path_items_2_and_3:
  assumes "address \<noteq> []"
    and "urlparse address = Some parsed"
    and "path parsed = ''/'' @ seg0 @ ''/'' @ uid @ ''/'' @ code @ rest"
    and "CHR ''/'' \<notin> set seg0" "CHR ''/'' \<notin> set uid" "CHR ''/'' \<notin> set code"
    and "rest = [] \<or> (\<exists>m. rest = ''/'' @ m)"
  shows "prepare_domain urlparse (PStr address) =
     Inr (scheme parsed @ ''://'' @ netloc parsed @ ''/rest/'' @ uid @ ''/'' @ code)"
proof -
  have "take 2 (drop 2 (split_on CHR ''/'' (path parsed))) = [uid, code]"
    unfolding assms(3) by (rule path_segments [OF assms(4-7)])
  then show ?thesis
    using assms(1,2) by (simp add: prepare_domain_def is_str_def)
qed

theorem endpoint_from_path_items_2_and_3_witness:
  "prepare_domain
     [''https://example.bitrix24.com/rest/1/33olqeits4avuyqu'' \<mapsto>
        \<lparr>scheme = ''https'', netloc = ''example.bitrix24.com'',
         path = ''/rest/1/33olqeits4avuyqu''\<rparr>]
     (PStr ''https://example.bitrix24.com/rest/1/33olqeits4avuyqu'') =
   Inr ''https://example.bitrix24.com/rest/1/33olqeits4avuyqu''"
  using endpoint_from_path_items_2_and_3
    [of "''https://example.bitrix24.com/rest/1/33olqeits4avuyqu''"
        "[''https://example.bitrix24.com/rest/1/33olqeits4avuyqu'' \<mapsto>
           \<lparr>scheme = ''https'', netloc = ''example.bitrix24.com'',
            path = ''/rest/1/33olqeits4avuyqu''\<rparr>]"
        "\<lparr>scheme = ''https'', netloc = ''example.bitrix24.com'',
            path = ''/rest/1/33olqeits4avuyqu''\<rparr>"
        "''rest''" "''1''" "''33olqeits4avuyqu''" "[]"]
  by simp

text \<open>
  Claim C8, as stated: construction fails exactly when the domain is empty or not text, and
  succeeds for any other input. The text \<open>abc\<close> is neither, \<open>urlparse\<close> returns it as a
  path with no scheme and no host, and the unpacking of \<open>path.split('/')[2:4]\<close> into two
  names raises \<open>ValueError\<close>.
\<close>

theorem short_path_counterexample:
  "PStr ''abc'' \<noteq> PStr [] \<and> is_str (PStr ''abc'') \<and>
   init [''abc'' \<mapsto> \<lparr>scheme = [], netloc = [], path = ''abc''\<rparr>] (PStr ''abc'') (PInt 60) =
     Inl ValueError"
  by (simp add: init_def prepare_domain_def is_str_def)

text \<open>
  Claim C8, amended: construction fails synchronously with the exception
  \<open>Exception('Empty domain')\<close> exactly when the supplied domain is the empty string or is
  not a text value; for a text domain that \<open>urlparse\<close> accepts and whose path splits at
  its slashes into at least four items, construction succeeds, with the timeout as given.
\<close>

theorem construction_outcome:
  "(init urlparse d t = Inl (Exception ''Empty domain'') \<longleftrightarrow> d = PStr [] \<or> \<not> is_str d) \<and>
   (\<forall>s parsed. d = PStr s \<and> s \<noteq> [] \<and> urlparse s = Some parsed \<and>
        4 \<le> length (split_on CHR ''/'' (path parsed)) \<longrightarrow>
      (\<exists>endpoint. init urlparse d t = Inr \<lparr>domain = endpoint, timeout = t\<rparr>))"
proof (intro conjI allI impI)
  show "init urlparse d t = Inl (Exception ''Empty domain'') \<longleftrightarrow> d = PStr [] \<or> \<not> is_str d"
    by (cases d)
      (auto simp: init_def prepare_domain_def is_str_def split: option.splits list.splits)
next
  fix s parsed
  assume a: "d = PStr s \<and> s \<noteq> [] \<and> urlparse s = Some parsed \<and>
        4 \<le> length (split_on CHR ''/'' (path parsed))"
  then have "length (take 2 (drop 2 (split_on CHR ''/'' (path parsed)))) = 2"
    by (auto simp: min_def)
  then obtain user_id code
    where "take 2 (drop 2 (split_on CHR ''/'' (path parsed))) = [user_id, code]"
    using two_items by blast
  with a show "\<exists>endpoint. init urlparse d t = Inr \<lparr>domain = endpoint, timeout = t\<rparr>"
    by (simp add: init_def prepare_domain_def is_str_def)
qed

theorem construction_outcome_witness:
  "init [''https://example.bitrix24.com/rest/1/33olqeits4avuyqu'' \<mapsto>
           \<lparr>scheme = ''https'', netloc = ''example.bitrix24.com'',
            path = ''/rest/1/33olqeits4avuyqu''\<rparr>] (PStr []) (PInt 60) =
     Inl (Exception ''Empty domain'') \<and>
   (\<exists>endpoint.
      init [''https://example.bitrix24.com/rest/1/33olqeits4avuyqu'' \<mapsto>
           \<lparr>scheme = ''https'', netloc = ''example.bitrix24.com'',
            path = ''/rest/1/33olqeits4avuyqu''\<rparr>]
        (PStr ''https://example.bitrix24.com/rest/1/33olqeits4avuyqu'') (PInt 60) =
      Inr \<lparr>domain = endpoint, timeout = PInt 60\<rparr>)"
  using construction_outcome
    [of "[''https://example.bitrix24.com/rest/1/33olqeits4avuyqu'' \<mapsto>
           \<lparr>scheme = ''https'', netloc = ''example.bitrix24.com'',
            path = ''/rest/1/33olqeits4avuyqu''\<rparr>]" "PStr []" "PInt 60"]
    construction_outcome
    [of "[''https://example.bitrix24.com/rest/1/33olqeits4avuyqu'' \<mapsto>
           \<lparr>scheme = ''https'', netloc = ''example.bitrix24.com'',
            path = ''/rest/1/33olqeits4avuyqu''\<rparr>]"
        "PStr ''https://example.bitrix24.com/rest/1/33olqeits4avuyqu''" "PInt 60"]
  by simp

section \<open>Properties of the method invoker\<close>

text \<open>
  Whatever the service replies, one call sends one request and never sleeps: the first
  unit of fuel is enough.
\<close>

lemma call_method_total:
  "\<exists>res w'. call_method (Suc fuel) tr self method params (w, trace) =
     Some (res, (w', trace @ [Sent (build_request self method params)]))"
  by (auto simp: Let_def split: prod.splits reply.splits sum.splits bool.splits)

lemma call_method_decoded:
  assumes "tr (build_request self method params) w = (Decoded r, w')"
    and "str_in ''error'' r = Inr False"
  shows "call_method (Suc fuel) tr self method params (w, trace) =
     Some (Inr r, (w', trace @ [Sent (build_request self method params)]))"
  using assms by simp

text \<open>
  Claim C9: when the decoding of the body raises, the handler reads the local \<open>r\<close>, which
  the \<open>try\<close> never assigned, and the call ends with the unbound-local exception after its
  one request: no sleep, no retry, no \<open>BitrixError\<close>.
\<close>

theorem non_json_reply_is_unbound_local:
  assumes "tr (build_request self method params) w = (RaisedValueError, w')"
  shows "call_method (Suc fuel) tr self method params (w, trace) =
     Some (Inl (UnboundLocalError ''r''),
           (w', trace @ [Sent (build_request self method params)]))"
  using assms by simp

theorem non_json_reply_is_unbound_local_witness:
  "call_method (Suc 0) scripted \<lparr>domain = ''https://h/rest/1/c'', timeout = PInt 60\<rparr>
     ''crm.product.list'' [] ([RaisedValueError, Decoded (PDict [(''result'', PList [])])], []) =
   Some (Inl (UnboundLocalError ''r''),
         ([Decoded (PDict [(''result'', PList [])])],
          [Sent (build_request \<lparr>domain = ''https://h/rest/1/c'', timeout = PInt 60\<rparr>
                   ''crm.product.list'' [])]))"
  using non_json_reply_is_unbound_local
    [of scripted "\<lparr>domain = ''https://h/rest/1/c'', timeout = PInt 60\<rparr>" "''crm.product.list''"
        "[]" "[RaisedValueError, Decoded (PDict [(''result'', PList [])])]"
        "[Decoded (PDict [(''result'', PList [])])]" 0 "[]"]
  by simp

text \<open>
  Claim C2, at the input where the source departs from it: the service answers
  \<open>{"error": "QUERY_LIMIT_EXCEEDED_detail"}\<close>. The body decodes, so the handler that
  sleeps and retries does not run; the body has an \<open>error\<close> key, so the call raises
  \<open>BitrixError\<close> after its one request, without a sleep and without a retry, exactly as
  it does for \<open>{"error": "OTHER"}\<close>.
\<close>

theorem rate_limit_reply_raises_at_once:
  "call_method (Suc fuel) scripted self method params
     (Decoded (PDict [(''error'', PStr ''QUERY_LIMIT_EXCEEDED_detail'')]) # replies, trace) =
   Some (Inl (BitrixError (PDict [(''error'', PStr ''QUERY_LIMIT_EXCEEDED_detail'')])),
         (replies, trace @ [Sent (build_request self method params)])) \<and>
   call_method (Suc fuel) scripted self method params
     (Decoded (PDict [(''error'', PStr ''OTHER'')]) # replies, trace) =
   Some (Inl (BitrixError (PDict [(''error'', PStr ''OTHER'')])),
         (replies, trace @ [Sent (build_request self method params)]))"
  by (simp add: str_in_def)

lemma rsplit1_no_sep: "c \<notin> set s \<Longrightarrow> hd (rsplit1 c s) = s"
  by (simp add: rsplit1_def)

lemma rsplit1_last_sep:
  assumes "c \<notin> set t"
  shows "rsplit1 c (p @ c # t) = [p, t]"
proof -
  have ok: "\<And>x. x \<in> set (rev t) \<Longrightarrow> x \<noteq> c"
    using assms by auto
  have tw: "takeWhile (\<lambda>x. x \<noteq> c) (rev t @ c # rev p) = rev t"
    using takeWhile_append2 [of "rev t" "\<lambda>x. x \<noteq> c" "c # rev p"] ok by simp
  have dw: "dropWhile (\<lambda>x. x \<noteq> c) (rev t @ c # rev p) = c # rev p"
    using dropWhile_append2 [of "rev t" "\<lambda>x. x \<noteq> c" "c # rev p"] ok by simp
  show ?thesis by (simp add: rsplit1_def tw dw)
qed

lemma post_words_no_dot: "w \<in> set post_words \<Longrightarrow> CHR ''.'' \<notin> set w"
  by (auto simp: post_words_def)

lemma verb_POST_iff:
  "verb (build_request self method params) = POST \<longleftrightarrow>
     (\<exists>w t. w \<in> set post_words \<and>
        (method = w \<or> (method = w @ ''.'' @ t \<and> CHR ''.'' \<notin> set t)))"
proof (cases "CHR ''.'' \<in> set method")
  case False
  then have "hd (rsplit1 CHR ''.'' method) = method" by (rule rsplit1_no_sep)
  moreover have "\<And>w t. method \<noteq> w @ ''.'' @ t" using False by auto
  ultimately show ?thesis by (auto simp: build_request_def)
next
  case True
  then obtain p t where m: "method = p @ CHR ''.'' # t" and t: "CHR ''.'' \<notin> set t"
    using split_list_last [of "CHR ''.''" "method"] by blast
  have hd: "hd (rsplit1 CHR ''.'' method) = p" using m t by (simp add: rsplit1_last_sep)
  have notw: "method \<notin> set post_words" using True post_words_no_dot by blast
  show ?thesis
  proof
    assume "verb (build_request self method params) = POST"
    then have "p \<in> set post_words"
      using hd by (auto simp: build_request_def split: if_splits)
    then show "\<exists>w t. w \<in> set post_words \<and>
        (method = w \<or> (method = w @ ''.'' @ t \<and> CHR ''.'' \<notin> set t))"
      using m t by auto
  next
    assume "\<exists>w t. w \<in> set post_words \<and>
        (method = w \<or> (method = w @ ''.'' @ t \<and> CHR ''.'' \<notin> set t))"
    then obtain w t' where w: "w \<in> set post_words" and e: "method = w @ ''.'' @ t'"
      and t': "CHR ''.'' \<notin> set t'"
      using notw by auto
    have "hd (rsplit1 CHR ''.'' method) = w"
      using e t' rsplit1_last_sep [of "CHR ''.''" t' w] by simp
    then show "verb (build_request self method params) = POST"
      using w by (simp add: build_request_def)
  qed
qed

lemma verb_cases: "v = GET \<longleftrightarrow> v \<noteq> POST"
  by (cases v) auto

text \<open>
  Claim C3, as stated: a POST is issued if and only if the first dot-separated segment of
  the method name is one of \<open>add\<close>, \<open>update\<close>, \<open>delete\<close>, \<open>set\<close>. The source tests
  \<open>method.rsplit('.', 1)[0]\<close>, the text before the last dot: the first segment of
  \<open>add.x.y\<close> is \<open>add\<close>, the text before its last dot is \<open>add.x\<close>, and the request is
  a GET.
\<close>

theorem first_segment_counterexample:
  "hd (split_on CHR ''.'' ''add.x.y'') = ''add'' \<and>
   call_method (Suc 0) scripted \<lparr>domain = ''https://h/rest/1/c'', timeout = PInt 60\<rparr>
     ''add.x.y'' [(''a'', PInt 1)] ([Decoded (PDict [(''result'', PBool True)])], []) =
   Some (Inr (PDict [(''result'', PBool True)]),
         ([], [Sent \<lparr>verb = GET, url = ''https://h/rest/1/c/add.x.y.json'',
                     payload = ''a=1&'', req_timeout = PInt 60\<rparr>]))"
  by (simp add: build_request_def rsplit1_def post_words_def str_in_def emit_scalar_def
      py_str_def str_int_def str_nat.simps digit_char_def)

text \<open>
  Claim C3, amended: for every method name, the invoker sends one request to
  \<open><endpoint>/<method>.json\<close> that carries the wire parameters; it is a POST if and
  only if the text of the name before its last dot (the whole name when it has no dot) is
  one of \<open>add\<close>, \<open>update\<close>, \<open>delete\<close>, \<open>set\<close>, that is, the name is one of these
  words alone or followed by one dot and a suffix without a dot; otherwise it is a GET.
\<close>

theorem post_iff_text_before_last_dot:
  "\<exists>res w' v.
     call_method (Suc fuel) tr self method params (w, trace) =
       Some (res, (w', trace @ [Sent \<lparr>verb = v, url = domain self @ ''/'' @ method @ ''.json'',
                      payload = prepare_params (PDict params) [],
                      req_timeout = timeout self\<rparr>])) \<and>
     (v = POST \<longleftrightarrow>
        (\<exists>word t. word \<in> {''add'', ''update'', ''delete'', ''set''} \<and>
           (method = word \<or> (method = word @ ''.'' @ t \<and> CHR ''.'' \<notin> set t)))) \<and>
     (v = GET \<longleftrightarrow>
        \<not> (\<exists>word t. word \<in> {''add'', ''update'', ''delete'', ''set''} \<and>
           (method = word \<or> (method = word @ ''.'' @ t \<and> CHR ''.'' \<notin> set t))))"
proof -
  let ?req = "build_request self method params"
  from call_method_total [of fuel tr self "method" "params" w trace]
  obtain res w' where sent: "call_method (Suc fuel) tr self method params (w, trace) =
      Some (res, (w', trace @ [Sent ?req]))"
    by (elim exE)
  have shape: "?req = \<lparr>verb = verb ?req, url = domain self @ ''/'' @ method @ ''.json'',
      payload = prepare_params (PDict params) [], req_timeout = timeout self\<rparr>"
    by (simp add: build_request_def)
  have words: "set post_words = {''add'', ''update'', ''delete'', ''set''}"
    by (simp add: post_words_def)
  have post: "verb ?req = POST \<longleftrightarrow>
      (\<exists>word t. word \<in> {''add'', ''update'', ''delete'', ''set''} \<and>
         (method = word \<or> (method = word @ ''.'' @ t \<and> CHR ''.'' \<notin> set t)))"
    using verb_POST_iff [of self "method" "params"] unfolding words .
  have get: "verb ?req = GET \<longleftrightarrow>
      \<not> (\<exists>word t. word \<in> {''add'', ''update'', ''delete'', ''set''} \<and>
         (method = word \<or> (method = word @ ''.'' @ t \<and> CHR ''.'' \<notin> set t)))"
    using post verb_cases [of "verb ?req"] by simp
  from sent shape post get show ?thesis by metis
qed


section \<open>Properties of the lazy offset iteration\<close>

lemma str_in_dict: "str_in k (PDict e) = Inr (k \<in> set (map fst e))"
  by (simp add: str_in_def)

lemma getitem_dict: "map_of e k = Some v \<Longrightarrow> getitem (PDict e) k = Inr v"
  by (simp add: getitem_def)

lemma py_gt_int: "py_gt (PInt t) (PInt s) = Inr (s < t)"
  by simp

lemma has_next_continues:
  assumes "page_continues e v s" "map_of params ''start'' = Some (PInt s)"
  shows "has_next (PDict e) params = Inr True"
  using assms by (auto simp: page_continues_def has_next_def str_in_dict getitem_dict)

lemma has_next_ends:
  assumes "page_ends e v s" "map_of params ''start'' = Some (PInt s)"
  shows "has_next (PDict e) params = Inr False"
  using assms by (auto simp: page_ends_def has_next_def str_in_dict getitem_dict split: bool.splits)

lemma call_scripted:
  assumes "str_in ''error'' r = Inr False"
  shows "call_method (Suc f) scripted self method params (Decoded r # rest, trace) =
     Some (Inr r, (rest, trace @ [Sent (build_request self method params)]))"
  by (rule call_method_decoded [OF _ assms]) simp

lemma start_present: "map_of params ''start'' = Some x \<Longrightarrow> ''start'' \<in> set (map fst params)"
  by (metis domI dom_map_of_conv_image_fst set_map) 

lemma map_upt_Suc: "map f [0..<Suc n] = f 0 # map (\<lambda>i. f (Suc i)) [0..<n]"
  by (simp add: upt_conv_Cons map_Suc_upt [symmetric] del: upt_Suc)

lemma iter_pages:
  assumes "map_of params ''start'' = Some (PInt s)"
    and "length inner < fuel"
    and "\<forall>i < length inner. page_continues (fst (inner ! i)) (snd (inner ! i)) (s + 50 * int i)"
    and "page_ends (fst lst) (snd lst) (s + 50 * int (length inner))"
  shows "callMethodIter fuel scripted self method params
           (map (\<lambda>p. Decoded (PDict (fst p))) inner @ Decoded (PDict (fst lst)) # replies, trace) =
         Some ((snd lst # rev (map snd inner), None),
               (replies,
                trace @ map (\<lambda>i. Sent (build_request self method
                                (AList.update ''start'' (PInt (s + 50 * int i)) params)))
                          [0..<Suc (length inner)]))"
  using assms
proof (induction inner arbitrary: s params fuel trace)
  case Nil
  then obtain f where fuel: "fuel = Suc f" by (cases fuel) auto
  have present: "''start'' \<in> set (map fst params)" using Nil(1) by (rule start_present)
  have noerr: "str_in ''error'' (PDict (fst lst)) = Inr False"
    using Nil(4) by (simp add: page_ends_def str_in_dict)
  note call = call_scripted [OF noerr]
  have stop: "has_next (PDict (fst lst)) params = Inr False"
    using has_next_ends [OF _ Nil(1)] Nil(4) by simp
  have res: "getitem (PDict (fst lst)) ''result'' = Inr (snd lst)"
    using Nil(4) by (simp add: page_ends_def getitem_dict)
  have same: "AList.update ''start'' (PInt s) params = params"
    using Nil(1) by (simp add: update_triv)
  show ?case
    unfolding fuel using present
    by (simp add: call stop res yield_result_def same del: call_method.simps)
next
  case (Cons x inner)
  then obtain f where fuel: "fuel = Suc f" and f: "length inner < f" by (cases fuel) auto
  have present: "''start'' \<in> set (map fst params)" using Cons.prems(1) by (rule start_present)
  have x: "page_continues (fst x) (snd x) s" using Cons.prems(3) by fastforce
  have noerr: "str_in ''error'' (PDict (fst x)) = Inr False"
    using x by (simp add: page_continues_def str_in_dict)
  note call = call_scripted [OF noerr]
  have go: "has_next (PDict (fst x)) params = Inr True"
    using has_next_continues [OF x Cons.prems(1)] .
  have res: "getitem (PDict (fst x)) ''result'' = Inr (snd x)"
    using x by (simp add: page_continues_def getitem_dict)
  let ?params = "AList.update ''start'' (PInt (s + 50)) params"
  have start': "map_of ?params ''start'' = Some (PInt (s + 50))"
    by (simp add: update_conv')
  have inner: "\<forall>i < length inner.
      page_continues (fst (inner ! i)) (snd (inner ! i)) (s + 50 + 50 * int i)"
  proof (intro allI impI)
    fix i assume "i < length inner"
    then have "page_continues (fst ((x # inner) ! Suc i)) (snd ((x # inner) ! Suc i))
        (s + 50 * int (Suc i))"
      using Cons.prems(3) by (metis Suc_less_eq length_Cons)
    then show "page_continues (fst (inner ! i)) (snd (inner ! i)) (s + 50 + 50 * int i)"
      by (simp add: algebra_simps)
  qed
  have lst: "page_ends (fst lst) (snd lst) (s + 50 + 50 * int (length inner))"
    using Cons.prems(4) by (simp add: algebra_simps)
  note IH = Cons.IH [OF start' f inner lst, of "trace @ [Sent (build_request self method params)]"]
  have same: "AList.update ''start'' (PInt s) params = params"
    using Cons.prems(1) by (simp add: update_triv)
  have shift: "\<And>i. AList.update ''start'' (PInt (s + 50 + 50 * int i)) ?params =
      AList.update ''start'' (PInt (s + 50 * int (Suc i))) params"
    by (simp add: algebra_simps)
  have reqs: "map (\<lambda>i. Sent (build_request self method
                  (AList.update ''start'' (PInt (s + 50 * int i)) params)))
              [0..<Suc (length (x # inner))] =
      Sent (build_request self method params) #
      map (\<lambda>i. Sent (build_request self method
                  (AList.update ''start'' (PInt (s + 50 + 50 * int i)) ?params)))
              [0..<Suc (length inner)]"
    unfolding shift
    by (subst map_upt_Suc) (simp add: same del: upt_Suc)
  show ?case
    unfolding fuel reqs using present Cons.prems(1)
    by (simp add: call go res yield_result_def add_int_def IH
        del: call_method.simps upt_Suc)
qed


lemma iter_default_start:
  assumes "''start'' \<notin> set (map fst params)"
  shows "callMethodIter fuel tr self method params st =
     callMethodIter fuel tr self method (AList.update ''start'' (PInt 0) params) st"
proof (cases fuel)
  case 0
  then show ?thesis by simp
next
  case (Suc f)
  have "''start'' \<in> set (map fst (AList.update ''start'' (PInt 0) params))"
    by (simp add: dom_update)
  with assms show ?thesis
    unfolding Suc by (simp del: call_method.simps)
qed

text \<open>
  Claim C5: the iteration over a service that answers with envelopes of which the first
  \<open>length inner\<close> continue at their offsets and the next one ends. The offsets are
  \<open>s\<close>, \<open>s + 50\<close>, \<open>s + 100\<close>, ... from the \<open>start\<close> of the caller, or from 0
  when the caller gave none. A further page is fetched exactly after each envelope that
  has a \<open>next\<close> field and a \<open>total\<close> above the current offset: one request per
  envelope up to the first that ends, each with \<open>start\<close> 50 above the one before, and
  no request after it (the replies that follow stay unread). The results are yielded
  last-fetched page first, the first page's result last, and the generator returns.
\<close>

theorem lazy_offset_iteration:
  assumes "map_of params ''start'' = Some (PInt s) \<or> (''start'' \<notin> set (map fst params) \<and> s = 0)"
    and "length inner < fuel"
    and "\<forall>i < length inner. page_continues (fst (inner ! i)) (snd (inner ! i)) (s + 50 * int i)"
    and "page_ends (fst lst) (snd lst) (s + 50 * int (length inner))"
  shows "callMethodIter fuel scripted self method params
           (map (\<lambda>p. Decoded (PDict (fst p))) (inner @ [lst]) @ replies, trace) =
         Some ((rev (map snd (inner @ [lst])), None),
               (replies,
                trace @ map (\<lambda>i. Sent (build_request self method
                                (AList.update ''start'' (PInt (s + 50 * int i)) params)))
                          [0..<Suc (length inner)]))"
proof -
  from assms(1) show ?thesis
  proof
    assume "map_of params ''start'' = Some (PInt s)"
    from iter_pages [OF this assms(2-4)] show ?thesis by simp
  next
    assume a: "''start'' \<notin> set (map fst params) \<and> s = 0"
    let ?params = "AList.update ''start'' (PInt 0) params"
    have "map_of ?params ''start'' = Some (PInt s)" using a by (simp add: update_conv')
    from iter_pages [OF this assms(2-4)]
    show ?thesis using a by (simp add: iter_default_start)
  qed
qed

theorem lazy_offset_iteration_witness:
  "callMethodIter 3 scripted \<lparr>domain = ''https://h/rest/1/c'', timeout = PInt 60\<rparr>
     ''crm.deal.list'' []
     ([Decoded (PDict [(''result'', PList [PStr ''a'']), (''next'', PInt 50), (''total'', PInt 120)]),
       Decoded (PDict [(''result'', PList [PStr ''b'']), (''next'', PInt 100), (''total'', PInt 120)]),
       Decoded (PDict [(''result'', PList [PStr ''c'']), (''total'', PInt 120)]),
       Decoded (PDict [(''result'', PList [PStr ''d''])])], []) =
   Some (([PList [PStr ''c''], PList [PStr ''b''], PList [PStr ''a'']], None),
         ([Decoded (PDict [(''result'', PList [PStr ''d''])])],
          [Sent (build_request \<lparr>domain = ''https://h/rest/1/c'', timeout = PInt 60\<rparr>
                   ''crm.deal.list'' [(''start'', PInt 0)]),
           Sent (build_request \<lparr>domain = ''https://h/rest/1/c'', timeout = PInt 60\<rparr>
                   ''crm.deal.list'' [(''start'', PInt 50)]),
           Sent (build_request \<lparr>domain = ''https://h/rest/1/c'', timeout = PInt 60\<rparr>
                   ''crm.deal.list'' [(''start'', PInt 100)])]))"
  using lazy_offset_iteration
    [of "[]" 0
        "[([(''result'', PList [PStr ''a'']), (''next'', PInt 50), (''total'', PInt 120)], PList [PStr ''a'']),
          ([(''result'', PList [PStr ''b'']), (''next'', PInt 100), (''total'', PInt 120)], PList [PStr ''b''])]"
        3
        "([(''result'', PList [PStr ''c'']), (''total'', PInt 120)], PList [PStr ''c''])"
        "\<lparr>domain = ''https://h/rest/1/c'', timeout = PInt 60\<rparr>" "''crm.deal.list''"
        "[Decoded (PDict [(''result'', PList [PStr ''d''])])]" "[]"]
  by (simp add: page_continues_def page_ends_def less_Suc_eq all_conj_distrib upt_conv_Cons
      numeral_2_eq_2 numeral_3_eq_3 del: upt_Suc)

section \<open>Properties of the aggregate call\<close>

lemma map_of_dict_update:
  "distinct (map fst e) \<Longrightarrow> map_of (dict_update d e) = map_of d ++ map_of e"
proof (induction e arbitrary: d)
  case Nil
  then show ?case by (simp add: dict_update_def)
next
  case (Cons kv e)
  obtain k v where kv: "kv = (k, v)" by (cases kv)
  have k: "k \<notin> dom (map_of e)" using Cons.prems kv by (simp add: dom_map_of_conv_image_fst)
  have "map_of (dict_update d (kv # e)) = map_of (dict_update (AList.update k v d) e)"
    by (simp add: dict_update_def kv)
  also have "\<dots> = map_of (AList.update k v d) ++ map_of e"
    using Cons.IH [of "AList.update k v d"] Cons.prems by simp
  also have "\<dots> = (map_of d)(k \<mapsto> v) ++ map_of e"
    by (simp only: update_conv')
  also have "\<dots> = (map_of d ++ map_of e)(k \<mapsto> v)"
    using k by (rule map_add_upd_left)
  finally have left: "map_of (dict_update d (kv # e)) = (map_of d ++ map_of e)(k \<mapsto> v)" .
  have right: "map_of d ++ map_of (kv # e) = (map_of d ++ map_of e)(k \<mapsto> v)"
    unfolding kv by (simp only: map_of.simps fst_conv snd_conv map_add_upd)
  show ?case by (simp only: left right)
qed

lemma merge_pages_spec:
  assumes "\<forall>d. PDict d \<in> set ys \<longrightarrow> distinct (map fst d)"
  shows "\<exists>rd. merge_pages ys acc l = (rd, l @ spec_concat ys) \<and>
     map_of rd = foldl (\<lambda>m y. case y of PDict d \<Rightarrow> m ++ map_of d | _ \<Rightarrow> m) (map_of acc) ys"
  using assms
proof (induction ys arbitrary: acc l)
  case Nil
  then show ?case by (simp add: spec_concat_def)
next
  case (Cons y ys)
  then have rest: "\<forall>d. PDict d \<in> set ys \<longrightarrow> distinct (map fst d)" by simp
  show ?case
  proof (cases y)
    case (PDict d)
    then have "distinct (map fst d)" using Cons.prems by simp
    then have m: "map_of (dict_update acc d) = map_of acc ++ map_of d"
      by (rule map_of_dict_update)
    from Cons.IH [OF rest, of "dict_update acc d" l] show ?thesis
      using PDict by (simp add: m spec_concat_def)
  next
    case (PList xs)
    from Cons.IH [OF rest, of acc "l @ xs"] show ?thesis
      using PList by (simp add: spec_concat_def)
  qed (use Cons.IH [OF rest, of acc l] in \<open>simp_all add: spec_concat_def\<close>)
qed

lemma iter_yields_nonempty:
  assumes "callMethodIter fuel tr self method params st = Some ((ys, None), st')"
  shows "ys \<noteq> []"
proof (cases fuel)
  case 0
  with assms show ?thesis by simp
next
  case (Suc f)
  with assms show ?thesis
    by (auto simp: yield_result_def Let_def simp del: call_method.simps
        split: option.splits sum.splits bool.splits prod.splits if_splits)
qed

text \<open>
  Claim C6: when the drained iteration returns after yielding the pages \<open>ys\<close>,
  \<open>callMethod\<close> returns the merge of the pages that are mappings when that merge is not
  empty (a page merged later overwrites the keys of the pages merged before it); else the
  concatenation of the pages that are sequences when it is not empty; else the page
  yielded last, unchanged. In particular a single page that is neither a mapping nor a
  list, a bare scalar, is returned as it is. The mappings are as the JSON decoder builds
  them: no key twice.
\<close>

theorem aggregate_and_merge:
  assumes "callMethodIter fuel tr self method params st = Some ((ys, None), st')"
    and "\<forall>d. PDict d \<in> set ys \<longrightarrow> distinct (map fst d)"
  shows "\<exists>v. callMethod fuel tr self method params st = Some (Inr v, st') \<and>
     (if spec_merge ys \<noteq> Map.empty then \<exists>m. v = PDict m \<and> map_of m = spec_merge ys
      else if spec_concat ys \<noteq> [] then v = PList (spec_concat ys)
      else ys \<noteq> [] \<and> v = last ys) \<and>
     (\<forall>c. ys = [c] \<and> (\<forall>d. c \<noteq> PDict d) \<and> (\<forall>l. c \<noteq> PList l) \<longrightarrow> v = c)"
proof -
  from merge_pages_spec [OF assms(2), of "[]" "[]"]
  obtain rd where mp: "merge_pages ys [] [] = (rd, spec_concat ys)"
    and rd: "map_of rd = spec_merge ys"
    by (auto simp: spec_merge_def)
  have ne: "ys \<noteq> []" using assms(1) by (rule iter_yields_nonempty)
  have empty: "rd = [] \<longleftrightarrow> spec_merge ys = Map.empty"
    using rd by (metis map_of_eq_empty_iff)
  let ?v = "if rd \<noteq> [] then PDict rd else if spec_concat ys \<noteq> [] then PList (spec_concat ys)
      else last ys"
  have call: "callMethod fuel tr self method params st = Some (Inr ?v, st')"
    using assms(1) mp ne by (simp add: callMethod_def)
  have shape: "if spec_merge ys \<noteq> Map.empty then \<exists>m. ?v = PDict m \<and> map_of m = spec_merge ys
      else if spec_concat ys \<noteq> [] then ?v = PList (spec_concat ys)
      else ys \<noteq> [] \<and> ?v = last ys"
    using empty rd ne by auto
  have scalar: "\<forall>c. ys = [c] \<and> (\<forall>d. c \<noteq> PDict d) \<and> (\<forall>l. c \<noteq> PList l) \<longrightarrow> ?v = c"
  proof (intro allI impI)
    fix c assume c: "ys = [c] \<and> (\<forall>d. c \<noteq> PDict d) \<and> (\<forall>l. c \<noteq> PList l)"
    then have "merge_pages ys [] [] = ([], [])" by (cases c) auto
    with mp have "rd = []" "spec_concat ys = []" by auto
    with c show "?v = c" by simp
  qed
  from call shape scalar show ?thesis by blast
qed

theorem aggregate_and_merge_witness:
  "callMethod (Suc 0) scripted \<lparr>domain = ''https://h/rest/1/c'', timeout = PInt 60\<rparr>
     ''app.info'' [] ([Decoded (PDict [(''result'', PInt 7)])], []) =
   Some (Inr (PInt 7),
         ([], [Sent (build_request \<lparr>domain = ''https://h/rest/1/c'', timeout = PInt 60\<rparr>
                       ''app.info'' [(''start'', PInt 0)])]))"
proof -
  have ends: "page_ends [(''result'', PInt 7)] (PInt 7) 0"
    by (simp add: page_ends_def)
  have "callMethodIter (Suc 0) scripted \<lparr>domain = ''https://h/rest/1/c'', timeout = PInt 60\<rparr>
     ''app.info'' [(''start'', PInt 0)] ([Decoded (PDict [(''result'', PInt 7)])], []) =
     Some (([PInt 7], None),
       ([], [Sent (build_request \<lparr>domain = ''https://h/rest/1/c'', timeout = PInt 60\<rparr>
                       ''app.info'' [(''start'', PInt 0)])]))"
    using iter_pages [of "[(''start'', PInt 0)]" 0 "[]" "Suc 0" "([(''result'', PInt 7)], PInt 7)"
        "\<lparr>domain = ''https://h/rest/1/c'', timeout = PInt 60\<rparr>" "''app.info''" "[]" "[]"] ends
    by simp
  then have "callMethodIter (Suc 0) scripted \<lparr>domain = ''https://h/rest/1/c'', timeout = PInt 60\<rparr>
     ''app.info'' [] ([Decoded (PDict [(''result'', PInt 7)])], []) =
     Some (([PInt 7], None),
       ([], [Sent (build_request \<lparr>domain = ''https://h/rest/1/c'', timeout = PInt 60\<rparr>
                       ''app.info'' [(''start'', PInt 0)])]))"
    by (simp add: iter_default_start)
  from aggregate_and_merge [OF this] show ?thesis by auto
qed

section \<open>Properties of the cursor bulk fetch\<close>

lemma fetch_loop_pages:
  assumes "map_of P ''filter'' = Some (PDict g)"
    and "length pages < fuel"
    and "\<forall>p \<in> set pages. page_of_rows (fst p) (fst (snd p)) (snd (snd p))"
    and "''error'' \<notin> set (map fst fin)" "map_of fin ''result'' = Some (PList [])"
  shows "fetch_loop fuel scripted self method key P ident acc
           (map (\<lambda>p. Decoded (PDict (fst p))) pages @ Decoded (PDict fin) # replies, trace) =
         Some (Inr (acc @ concat (map (\<lambda>p. fst (snd p)) pages)),
               (replies,
                trace @ map (\<lambda>c. Sent (build_request self method
                          (AList.update ''filter'' (PDict (AList.update ''>ID'' c g)) P)))
                        (ident # map (\<lambda>p. snd (snd p)) pages)))"
  using assms(1-3)
proof (induction pages arbitrary: P g ident acc trace fuel)
  case Nil
  then obtain f where fuel: "fuel = Suc f" by (cases fuel) auto
  have noerr: "str_in ''error'' (PDict fin) = Inr False"
    using assms(4) by (simp add: str_in_dict)
  note call = call_scripted [OF noerr]
  have res: "getitem (PDict fin) ''result'' = Inr (PList [])"
    using assms(5) by (rule getitem_dict)
  show ?case
    unfolding fuel using Nil(1)
    by (simp add: call res py_truthy_def del: call_method.simps)
next
  case (Cons p pages)
  then obtain f where fuel: "fuel = Suc f" and f: "length pages < f" by (cases fuel) auto
  obtain e rows i where p: "p = (e, rows, i)" by (cases p)
  have page: "page_of_rows e rows i" using Cons.prems(3) p by simp
  then obtain row where row: "last rows = PDict row" "map_of row ''id'' = Some i"
    and rows: "rows \<noteq> []"
    by (auto simp: page_of_rows_def)
  have noerr: "str_in ''error'' (PDict e) = Inr False"
    using page by (simp add: page_of_rows_def str_in_dict)
  note call = call_scripted [OF noerr]
  have res: "getitem (PDict e) ''result'' = Inr (PList rows)"
    using page by (simp add: page_of_rows_def getitem_dict)
  have ident': "getitem (PDict row) ''id'' = Inr i"
    using row(2) by (rule getitem_dict)
  let ?g = "AList.update ''>ID'' ident g"
  let ?P = "AList.update ''filter'' (PDict ?g) P"
  have filter': "map_of ?P ''filter'' = Some (PDict ?g)"
    by (simp add: update_conv')
  have rest: "\<forall>p \<in> set pages. page_of_rows (fst p) (fst (snd p)) (snd (snd p))"
    using Cons.prems(3) by simp
  note IH = Cons.IH [OF filter' f rest, of i "acc @ rows"
      "trace @ [Sent (build_request self method ?P)]"]
  show ?case
    unfolding fuel using Cons.prems(1)
    by (simp add: call res py_truthy_def rows py_iter_def last_item_def row(1) ident' IH p
        del: call_method.simps)
qed


lemma keys_update: "set (map fst (AList.update k v al)) = insert k (set (map fst al))"
  using dom_update [of k v al] by simp

text \<open>
  Claim C7: the cursor bulk fetch over a service that answers with pages of rows and then
  with an empty page. Every call carries \<open>start = -1\<close>, \<open>order = {ID: asc}\<close> and the
  caller's filter with its clause \<open>>ID\<close> rewritten to the cursor: the \<open>id\<close> given by
  the caller for the first call, then the \<open>id\<close> field of the last row of each page. Every
  row of every page is appended to the result, in order, and the loop stops at the empty
  page: one request per page and one for the empty page, none after it.
\<close>

theorem cursor_bulk_fetch:
  assumes "map_of params ''filter'' = Some (PDict f) \<or>
      (''filter'' \<notin> set (map fst params) \<and> f = [])"
    and "length pages < fuel"
    and "\<forall>p \<in> set pages. page_of_rows (fst p) (fst (snd p)) (snd (snd p))"
    and "''error'' \<notin> set (map fst fin)"
    and "map_of fin ''result'' = Some (PList [])"
  shows "callMethodList fuel scripted self method ident key params
           (map (\<lambda>p. Decoded (PDict (fst p))) pages @ Decoded (PDict fin) # replies, trace) =
         Some (Inr (concat (map (\<lambda>p. fst (snd p)) pages)),
               (replies,
                trace @ map (\<lambda>c. Sent (build_request self method
                          (AList.update ''filter'' (PDict (AList.update ''>ID'' c f))
                            (AList.update ''order'' (PDict [(''ID'', PStr ''asc'')])
                              (AList.update ''start'' (PInt (- 1)) params)))))
                        (ident # map (\<lambda>p. snd (snd p)) pages))) \<and>
     (\<forall>c. map_of (AList.update ''filter'' (PDict (AList.update ''>ID'' c f))
                 (AList.update ''order'' (PDict [(''ID'', PStr ''asc'')])
                   (AList.update ''start'' (PInt (- 1)) params))) =
            (map_of params)(''start'' \<mapsto> PInt (- 1), ''order'' \<mapsto> PDict [(''ID'', PStr ''asc'')],
               ''filter'' \<mapsto> PDict (AList.update ''>ID'' c f)) \<and>
          map_of (AList.update ''>ID'' c f) = (map_of f)(''>ID'' \<mapsto> c))"
proof (intro conjI allI)
  let ?P2 = "AList.update ''order'' (PDict [(''ID'', PStr ''asc'')])
      (AList.update ''start'' (PInt (- 1)) params)"
  let ?P3 = "if ''filter'' \<notin> set (map fst ?P2)
      then AList.update ''filter'' (PDict []) ?P2 else ?P2"
  have unfold: "callMethodList fuel scripted self method ident key params st =
      fetch_loop fuel scripted self method key ?P3 ident [] st" for st
    by (simp add: callMethodList_def Let_def)
  have keys: "''filter'' \<in> set (map fst ?P2) \<longleftrightarrow> ''filter'' \<in> set (map fst params)"
    by (simp only: keys_update) simp
  from assms(1) have filter3: "map_of ?P3 ''filter'' = Some (PDict f)"
  proof
    assume a: "map_of params ''filter'' = Some (PDict f)"
    then have "''filter'' \<in> set (map fst params)"
      by (metis domI dom_map_of_conv_image_fst set_map)
    then have "?P3 = ?P2" using keys by simp
    then show ?thesis using a by (simp add: update_conv')
  next
    assume a: "''filter'' \<notin> set (map fst params) \<and> f = []"
    then have "?P3 = AList.update ''filter'' (PDict []) ?P2" using keys by simp
    then show ?thesis using a by (simp add: update_conv')
  qed
  have same: "AList.update ''filter'' x ?P3 = AList.update ''filter'' x ?P2" for x
    by simp
  from fetch_loop_pages [OF filter3 assms(2-5), where acc = "[]"]
  show "callMethodList fuel scripted self method ident key params
           (map (\<lambda>p. Decoded (PDict (fst p))) pages @ Decoded (PDict fin) # replies, trace) =
         Some (Inr (concat (map (\<lambda>p. fst (snd p)) pages)),
               (replies,
                trace @ map (\<lambda>c. Sent (build_request self method
                          (AList.update ''filter'' (PDict (AList.update ''>ID'' c f)) ?P2)))
                        (ident # map (\<lambda>p. snd (snd p)) pages)))"
    unfolding unfold same by simp
next
  fix c
  show "map_of (AList.update ''filter'' (PDict (AList.update ''>ID'' c f))
                 (AList.update ''order'' (PDict [(''ID'', PStr ''asc'')])
                   (AList.update ''start'' (PInt (- 1)) params))) =
            (map_of params)(''start'' \<mapsto> PInt (- 1), ''order'' \<mapsto> PDict [(''ID'', PStr ''asc'')],
               ''filter'' \<mapsto> PDict (AList.update ''>ID'' c f))"
    by (simp only: update_conv')
next
  fix c
  show "map_of (AList.update ''>ID'' c f) = (map_of f)(''>ID'' \<mapsto> c)"
    by (simp only: update_conv')
qed

theorem cursor_bulk_fetch_witness:
  "callMethodList 3 scripted \<lparr>domain = ''https://h/rest/1/c'', timeout = PInt 60\<rparr>
     ''crm.deal.list'' (PInt 0) None []
     ([Decoded (PDict [(''result'', PList [PDict [(''id'', PInt 1)], PDict [(''id'', PInt 2)]])]),
       Decoded (PDict [(''result'', PList [PDict [(''id'', PInt 3)]])]),
       Decoded (PDict [(''result'', PList [])]),
       Decoded (PDict [(''result'', PList [PDict [(''id'', PInt 4)]])])], []) =
   Some (Inr [PDict [(''id'', PInt 1)], PDict [(''id'', PInt 2)], PDict [(''id'', PInt 3)]],
         ([Decoded (PDict [(''result'', PList [PDict [(''id'', PInt 4)]])])],
          [Sent (build_request \<lparr>domain = ''https://h/rest/1/c'', timeout = PInt 60\<rparr>
                   ''crm.deal.list''
                   [(''start'', PInt (- 1)), (''order'', PDict [(''ID'', PStr ''asc'')]),
                    (''filter'', PDict [(''>ID'', PInt 0)])]),
           Sent (build_request \<lparr>domain = ''https://h/rest/1/c'', timeout = PInt 60\<rparr>
                   ''crm.deal.list''
                   [(''start'', PInt (- 1)), (''order'', PDict [(''ID'', PStr ''asc'')]),
                    (''filter'', PDict [(''>ID'', PInt 2)])]),
           Sent (build_request \<lparr>domain = ''https://h/rest/1/c'', timeout = PInt 60\<rparr>
                   ''crm.deal.list''
                   [(''start'', PInt (- 1)), (''order'', PDict [(''ID'', PStr ''asc'')]),
                    (''filter'', PDict [(''>ID'', PInt 3)])])]))"
  using cursor_bulk_fetch
    [of "[]" "[]"
        "[([(''result'', PList [PDict [(''id'', PInt 1)], PDict [(''id'', PInt 2)]])],
           [PDict [(''id'', PInt 1)], PDict [(''id'', PInt 2)]], PInt 2),
          ([(''result'', PList [PDict [(''id'', PInt 3)]])], [PDict [(''id'', PInt 3)]], PInt 3)]"
        3 "[(''result'', PList [])]"
        "\<lparr>domain = ''https://h/rest/1/c'', timeout = PInt 60\<rparr>" "''crm.deal.list''"
        "PInt 0" None "[Decoded (PDict [(''result'', PList [PDict [(''id'', PInt 4)]])])]" "[]"]
  by (simp add: page_of_rows_def)

end
